theory Spec2Isabelle
  imports Main "HOL-Library.Word"
begin

section \<open>Values, errors and render results\<close>

text \<open>
  A bound argument is a Go value of type \<open>any\<close>; \<open>VNil\<close> is the nil interface value.
\<close>

datatype val = VNil | VInt int | VStr string | VBool bool

text \<open>
  A Go \<open>error\<close>. \<open>ErrorString m\<close> is what \<open>errors.New(m)\<close> and a \<open>fmt.Errorf\<close> without
  \<open>%w\<close> build; \<open>WrapError m e\<close> is what \<open>fmt.Errorf\<close> with one \<open>%w\<close> builds: the
  formatted message \<open>m\<close> and the wrapped error \<open>e\<close> that \<open>errors.Unwrap\<close> gives back.
\<close>

datatype err = ErrorString string | WrapError string err

fun Error :: "err \<Rightarrow> string" where
  "Error (ErrorString m) = m"
| "Error (WrapError m e) = m"

fun Unwrap :: "err \<Rightarrow> err option" where
  "Unwrap (ErrorString m) = None"
| "Unwrap (WrapError m e) = Some e"

text \<open>
  What \<open>ToSql\<close> returns: the triple \<open>(string, []any, error)\<close>. A nil slice and an empty
  slice are both \<open>[]\<close>; a nil error is \<open>None\<close>.
\<close>

type_synonym sqlres = "string \<times> val list \<times> err option"

section \<open>Library functions the renderers call\<close>

text \<open>The verb \<open>%d\<close> of \<open>fmt\<close> on a non-negative integer: its decimal digits.\<close>

definition digit_char :: "nat \<Rightarrow> char" where
  "digit_char n = char_of (48 + n)"

function decimal :: "nat \<Rightarrow> string" where
  "decimal n = (if n < 10 then [digit_char n] else decimal (n div 10) @ [digit_char (n mod 10)])"
  by pat_completeness auto
termination
  by (relation "measure id") auto

declare decimal.simps [simp del]

text \<open>\<open>strings.Join(elems, sep)\<close>.\<close>

fun strings_Join :: "string list \<Rightarrow> string \<Rightarrow> string" where
  "strings_Join [] sep = []"
| "strings_Join [x] sep = x"
| "strings_Join (x # y # zs) sep = x @ sep @ strings_Join (y # zs) sep"

text \<open>
  \<open>strings.Fields(s)\<close>: the maximal runs of non-space characters of \<open>s\<close>, in order. A string
  is its bytes, and \<open>isSpace\<close> is the ASCII white space of Go's \<open>unicode.IsSpace\<close>
  (tab, line feed, vertical tab, form feed, carriage return, space); the white space
  code points beyond ASCII, which are several bytes in UTF-8, are not covered.
\<close>

definition isSpace :: "char \<Rightarrow> bool" where
  "isSpace c = (c \<in> set [CHR 0x09, CHR 0x0A, CHR 0x0B, CHR 0x0C, CHR 0x0D, CHR 0x20])"

fun strings_Fields :: "string \<Rightarrow> string list" where
  "strings_Fields [] = []"
| "strings_Fields (c # cs) =
     (if isSpace c then strings_Fields cs
      else (case cs of
              [] \<Rightarrow> [[c]]
            | d # ds \<Rightarrow>
                if isSpace d then [c] # strings_Fields cs
                else (case strings_Fields cs of
                        [] \<Rightarrow> [[c]]
                      | w # ws \<Rightarrow> (c # w) # ws)))"

section \<open>Placeholder formats\<close>

text \<open>
  Modelled from the spec: the interface \<open>PlaceholderFormat\<close>, its values and its method
  \<open>ReplacePlaceholders\<close> are not part of the sources at hand. The spec gives the
  enumerated set of formats, the question-mark format as the identity, and the ordinal
  formats as a scan from left to right that replaces the N-th question mark by the
  encoding of N, counted from 1, and leaves every other character alone. The rewrite is
  tolerant: it never fails.
\<close>

datatype PlaceholderFormat = Question | Dollar | Colon | AtP

text \<open>
  Modelled from the spec: the encoding of an ordinal is not part of the sources at hand;
  an ordinal format writes its prefix and then the number (\<open>$1\<close>, \<open>:1\<close>, \<open>@p1\<close>).
\<close>

fun placeholderPrefix :: "PlaceholderFormat \<Rightarrow> string" where
  "placeholderPrefix Question = ''?''"
| "placeholderPrefix Dollar = ''$''"
| "placeholderPrefix Colon = '':''"
| "placeholderPrefix AtP = ''@p''"

text \<open>
  Modelled from the spec: the scan of the ordinal formats is not part of the sources at
  hand. It goes through the text from left to right with the next ordinal \<open>n\<close>, replaces
  each question mark by the prefix and the ordinal, and leaves every other character.
\<close>

fun replacePositionalPlaceholders :: "string \<Rightarrow> nat \<Rightarrow> string \<Rightarrow> string" where
  "replacePositionalPlaceholders pre n [] = []"
| "replacePositionalPlaceholders pre n (c # cs) =
     (if c = CHR ''?'' then pre @ decimal n @ replacePositionalPlaceholders pre (Suc n) cs
      else c # replacePositionalPlaceholders pre n cs)"

text \<open>
  Modelled from the spec: the method \<open>ReplacePlaceholders\<close> is not part of the sources at
  hand. The question-mark format is the identity; an ordinal format numbers the question
  marks from 1. It returns the text and an error, which is never set.
\<close>

fun ReplacePlaceholders :: "PlaceholderFormat \<Rightarrow> string \<Rightarrow> string \<times> err option" where
  "ReplacePlaceholders Question sql = (sql, None)"
| "ReplacePlaceholders f sql = (replacePositionalPlaceholders (placeholderPrefix f) 1 sql, None)"

section \<open>The UNION chain\<close>

type_synonym unionOp = string

definition unionDistinct :: unionOp where
  "unionDistinct = ''UNION''"

definition unionAll :: unionOp where
  "unionAll = ''UNION ALL''"

text \<open>
  One segment of the chain. The type \<open>'s\<close> stands for the interface \<open>Sqlizer\<close>; the
  renderer gets the method \<open>ToSql\<close> of its values as the function \<open>toSql\<close>.
\<close>

record 's unionPart =
  op :: unionOp
  query :: 's

record 's unionData =
  PlaceholderFormat :: "PlaceholderFormat option"
  Parts :: "'s unionPart list"
  OrderBy :: "string list"
  LimitSet :: bool
  Limit :: "64 word"
  OffsetSet :: bool
  Offset :: "64 word"
  Suffixes :: "'s list"
  CompactOutput :: bool

text \<open>
  \<open>compactSQL\<close>: the fields of the string, joined by single spaces.
\<close>

definition compactSQL :: "string \<Rightarrow> string" where
  "compactSQL s = strings_Join (strings_Fields s) '' ''"

text \<open>
  The loop over the segments of \<open>unionData.toSql\<close>: \<open>i\<close> is the index of the segment
  at the head of the list, \<open>buf\<close> and \<open>args\<close> are the buffer and the arguments so far.
  A segment that fails to render ends the whole render with empty text, no arguments and
  the child's error wrapped with the index.
\<close>

fun unionBody :: "('s \<Rightarrow> sqlres) \<Rightarrow> nat \<Rightarrow> 's unionPart list \<Rightarrow> string \<Rightarrow> val list \<Rightarrow> sqlres" where
  "unionBody toSql i [] buf args = (buf, args, None)"
| "unionBody toSql i (p # ps) buf args =
     (case toSql (query p) of
        (subSQL, subArgs, Some e) \<Rightarrow>
          ([], [], Some (WrapError (''squirrel: union subquery '' @ decimal i @ '': '' @ Error e) e))
      | (subSQL, subArgs, None) \<Rightarrow>
          unionBody toSql (Suc i) ps
            ((if i > 0 then buf @ '' '' @ op p @ '' '' else buf) @ ''('' @ subSQL @ '')'')
            (args @ subArgs))"

text \<open>The clauses of the whole union: ORDER BY, LIMIT and OFFSET, written to the buffer.\<close>

definition unionClauses :: "'s unionData \<Rightarrow> string" where
  "unionClauses d =
     (if length (OrderBy d) > 0 then '' ORDER BY '' @ strings_Join (OrderBy d) '', '' else [])
     @ (if LimitSet d then '' LIMIT '' @ decimal (unat (Limit d)) else [])
     @ (if OffsetSet d then '' OFFSET '' @ decimal (unat (Offset d)) else [])"

text \<open>
  The suffixes. The helper \<open>appendToSql\<close> is not part of the sources at hand, so the
  renderer takes it as the parameter \<open>appendToSql\<close>: given the fragments, the separator
  and the arguments so far, it gives the text it writes to the buffer, the new arguments
  and its error.
\<close>

definition unionSuffixes ::
  "('s list \<Rightarrow> string \<Rightarrow> val list \<Rightarrow> sqlres) \<Rightarrow> 's unionData \<Rightarrow> string \<Rightarrow> val list \<Rightarrow> sqlres" where
  "unionSuffixes appendToSql d buf args =
     (if length (Suffixes d) > 0 then
        (case appendToSql (Suffixes d) '' '' args of
           (w, args', Some e) \<Rightarrow> ([], [], Some e)
         | (w, args', None) \<Rightarrow> (buf @ '' '' @ w, args', None))
      else (buf, args, None))"

text \<open>Placeholder replacement, last, and then the optional compaction.\<close>

definition unionFinish :: "'s unionData \<Rightarrow> string \<Rightarrow> val list \<Rightarrow> sqlres" where
  "unionFinish d sqlStr args =
     (case (case PlaceholderFormat d of
              None \<Rightarrow> (sqlStr, None)
            | Some f \<Rightarrow> ReplacePlaceholders f sqlStr) of
        (s, Some e) \<Rightarrow> ([], [], Some e)
      | (s, None) \<Rightarrow> ((if CompactOutput d then compactSQL s else s), args, None))"

definition unionData_toSql ::
  "('s \<Rightarrow> sqlres) \<Rightarrow> ('s list \<Rightarrow> string \<Rightarrow> val list \<Rightarrow> sqlres) \<Rightarrow> 's unionData \<Rightarrow> sqlres" where
  "unionData_toSql toSql appendToSql d =
     (if length (Parts d) = 0 then
        ([], [], Some (ErrorString ''squirrel: union requires at least one SELECT''))
      else
        (case unionBody toSql 0 (Parts d) [] [] of
           (buf, args, Some e) \<Rightarrow> ([], [], Some e)
         | (buf, args, None) \<Rightarrow>
             (case unionSuffixes appendToSql d (buf @ unionClauses d) args of
                (buf', args', Some e) \<Rightarrow> ([], [], Some e)
              | (buf', args', None) \<Rightarrow> unionFinish d buf' args')))"

text \<open>The builder: an empty builder, the two constructors and the methods.\<close>

definition emptyUnion :: "'s unionData" where
  "emptyUnion =
     \<lparr> PlaceholderFormat = None, Parts = [], OrderBy = [], LimitSet = False, Limit = 0,
       OffsetSet = False, Offset = 0, Suffixes = [], CompactOutput = False \<rparr>"

fun unionAppendAll :: "unionOp \<Rightarrow> nat \<Rightarrow> 's list \<Rightarrow> 's unionData \<Rightarrow> 's unionData" where
  "unionAppendAll opr i [] u = u"
| "unionAppendAll opr i (p # ps) u =
     unionAppendAll opr (Suc i) ps
       (if i = 0 then u\<lparr>Parts := Parts u @ [\<lparr>op = [], query = p\<rparr>]\<rparr>
        else u\<lparr>Parts := Parts u @ [\<lparr>op = opr, query = p\<rparr>]\<rparr>)"

definition squirrel_Union :: "'s list \<Rightarrow> 's unionData" where
  "squirrel_Union parts = unionAppendAll unionDistinct 0 parts emptyUnion"

definition squirrel_UnionAll :: "'s list \<Rightarrow> 's unionData" where
  "squirrel_UnionAll parts = unionAppendAll unionAll 0 parts emptyUnion"

definition UnionBuilder_Union :: "'s \<Rightarrow> 's unionData \<Rightarrow> 's unionData" where
  "UnionBuilder_Union q b = b\<lparr>Parts := Parts b @ [\<lparr>op = unionDistinct, query = q\<rparr>]\<rparr>"

definition UnionBuilder_UnionAll :: "'s \<Rightarrow> 's unionData \<Rightarrow> 's unionData" where
  "UnionBuilder_UnionAll q b = b\<lparr>Parts := Parts b @ [\<lparr>op = unionAll, query = q\<rparr>]\<rparr>"

definition UnionBuilder_OrderBy :: "string list \<Rightarrow> 's unionData \<Rightarrow> 's unionData" where
  "UnionBuilder_OrderBy exprs b = b\<lparr>OrderBy := OrderBy b @ exprs\<rparr>"

definition UnionBuilder_Limit :: "64 word \<Rightarrow> 's unionData \<Rightarrow> 's unionData" where
  "UnionBuilder_Limit n b = (b\<lparr>LimitSet := True\<rparr>)\<lparr>Limit := n\<rparr>"

definition UnionBuilder_Offset :: "64 word \<Rightarrow> 's unionData \<Rightarrow> 's unionData" where
  "UnionBuilder_Offset n b = (b\<lparr>OffsetSet := True\<rparr>)\<lparr>Offset := n\<rparr>"

definition UnionBuilder_Suffix :: "'s list \<Rightarrow> 's unionData \<Rightarrow> 's unionData" where
  "UnionBuilder_Suffix exprs b = b\<lparr>Suffixes := Suffixes b @ exprs\<rparr>"

definition UnionBuilder_PlaceholderFormat :: "PlaceholderFormat \<Rightarrow> 's unionData \<Rightarrow> 's unionData" where
  "UnionBuilder_PlaceholderFormat f b = b\<lparr>PlaceholderFormat := Some f\<rparr>"

definition UnionBuilder_Compact :: "'s unionData \<Rightarrow> 's unionData" where
  "UnionBuilder_Compact b = b\<lparr>CompactOutput := True\<rparr>"

text \<open>
  Modelled from the spec: \<open>appendToSql\<close> is not part of the sources at hand. The spec has
  the suffix fragments rendered in their order and joined by the separator, each one
  contributing its arguments, and the first error of a fragment ending the render.
  The renderer above does not depend on it: it takes the helper as a parameter, and this
  definition is what the examples pass.
\<close>

fun appendToSql :: "('s \<Rightarrow> sqlres) \<Rightarrow> 's list \<Rightarrow> string \<Rightarrow> val list \<Rightarrow> sqlres" where
  "appendToSql nestedToSql [] sep as = ([], as, None)"
| "appendToSql nestedToSql (p # ps) sep as =
     (case nestedToSql p of
        (partSql, partArgs, Some e) \<Rightarrow> ([], [], Some e)
      | (partSql, partArgs, None) \<Rightarrow>
          (case appendToSql nestedToSql ps sep (as @ partArgs) of
             (w, as', Some e) \<Rightarrow> ([], [], Some e)
           | (w, as', None) \<Rightarrow> ((if ps = [] then partSql else partSql @ sep @ w), as', None)))"

section \<open>The CASE expression\<close>

text \<open>
  A parameter of type \<open>any\<close>, as the type switches of the builder see it: a value that
  is a \<open>Sqlizer\<close>, or any other value, \<open>AValue VNil\<close> being nil.
\<close>

datatype 's any = ASqlizer 's | AValue val

text \<open>
  Modelled from the spec: \<open>Placeholders\<close> is not part of the sources at hand. The spec
  has each literal THEN or ELSE value contribute exactly one neutral placeholder, the
  question mark, which is what the one call \<open>Placeholders(1)\<close> of the renderer gives;
  several placeholders are separated by commas.
\<close>

definition Placeholders :: "nat \<Rightarrow> string" where
  "Placeholders count = strings_Join (replicate count ''?'') '',''"

text \<open>
  \<open>sqlizerBuffer\<close>: the embedded \<open>bytes.Buffer\<close>, the arguments and the first error.
  \<open>WriteString\<close> is the method of the embedded buffer: it writes whatever the error is.
  \<open>WriteSql\<close> renders the item with \<open>nestedToSql\<close>, which is not part of the sources at
  hand and is a parameter.
\<close>

record sqlizerBuffer =
  Buffer :: string
  b_args :: "val list"
  b_err :: "err option"

definition WriteString :: "string \<Rightarrow> sqlizerBuffer \<Rightarrow> sqlizerBuffer" where
  "WriteString s b = b\<lparr>Buffer := Buffer b @ s\<rparr>"

definition WriteSql :: "('s \<Rightarrow> sqlres) \<Rightarrow> 's \<Rightarrow> sqlizerBuffer \<Rightarrow> sqlizerBuffer" where
  "WriteSql nestedToSql item b =
     (if b_err b \<noteq> None then b
      else (case nestedToSql item of
              (str, as, Some e) \<Rightarrow> b\<lparr>b_err := Some e\<rparr>
            | (str, as, None) \<Rightarrow> b\<lparr>Buffer := Buffer b @ str @ '' '', b_args := b_args b @ as\<rparr>))"

definition sqlizerBuffer_ToSql :: "sqlizerBuffer \<Rightarrow> sqlres" where
  "sqlizerBuffer_ToSql b = (Buffer b, b_args b, b_err b)"

text \<open>
  \<open>whenPart\<close>; the fields \<open>when\<close> and \<open>then\<close> of the source are \<open>wWhen\<close> and \<open>wThen\<close>
  here. A nil interface is \<open>None\<close>, a nil value is \<open>VNil\<close>.
\<close>

record 's whenPart =
  wWhen :: 's
  wThen :: "'s option"
  thenValue :: val
  nullThen :: bool

record 's caseData =
  What :: "'s option"
  WhenParts :: "'s whenPart list"
  Else :: "'s option"
  ElseValue :: val
  ElseNull :: bool

text \<open>
  The loop over the WHEN parts of \<open>caseData.ToSql\<close>. A part with no THEN of any form
  ends the render at once with an error (\<open>Inl\<close>).
\<close>

fun caseWhenParts :: "('s \<Rightarrow> sqlres) \<Rightarrow> 's whenPart list \<Rightarrow> sqlizerBuffer \<Rightarrow> err + sqlizerBuffer" where
  "caseWhenParts nestedToSql [] sql = Inr sql"
| "caseWhenParts nestedToSql (p # ps) sql =
     (let sql1 = WriteSql nestedToSql (wWhen p) (WriteString ''WHEN '' sql) in
      if wThen p = None \<and> thenValue p = VNil \<and> \<not> nullThen p then
        Inl (ErrorString ''When clause must have Then part'')
      else
        (let sql2 = WriteString ''THEN '' sql1 in
         caseWhenParts nestedToSql ps
           (case wThen p of
              Some t \<Rightarrow> WriteSql nestedToSql t sql2
            | None \<Rightarrow>
                (let sql3 = WriteString (Placeholders 1 @ '' '') sql2
                 in sql3\<lparr>b_args := b_args sql3 @ [thenValue p]\<rparr>))))"

text \<open>The ELSE part and the closing keyword of \<open>caseData.ToSql\<close>.\<close>

definition caseElse :: "('s \<Rightarrow> sqlres) \<Rightarrow> 's caseData \<Rightarrow> sqlizerBuffer \<Rightarrow> sqlizerBuffer" where
  "caseElse nestedToSql d sql =
     (let sql1 = (if Else d \<noteq> None \<or> ElseValue d \<noteq> VNil \<or> ElseNull d
                  then WriteString ''ELSE '' sql else sql);
          sql2 = (case Else d of
                    Some e \<Rightarrow> WriteSql nestedToSql e sql1
                  | None \<Rightarrow>
                      if ElseValue d \<noteq> VNil \<or> ElseNull d then
                        (let sql3 = WriteString (Placeholders 1 @ '' '') sql1
                         in sql3\<lparr>b_args := b_args sql3 @ [ElseValue d]\<rparr>)
                      else sql1)
      in WriteString ''END'' sql2)"

definition caseData_ToSql :: "('s \<Rightarrow> sqlres) \<Rightarrow> 's caseData \<Rightarrow> sqlres" where
  "caseData_ToSql nestedToSql d =
     (if length (WhenParts d) = 0 then
        ([], [], Some (ErrorString ''case expression must contain at lease one WHEN clause''))
      else
        (let sql0 = WriteString ''CASE '' \<lparr>Buffer = [], b_args = [], b_err = None\<rparr>;
             sql1 = (case What d of Some w \<Rightarrow> WriteSql nestedToSql w sql0 | None \<Rightarrow> sql0)
         in case caseWhenParts nestedToSql (WhenParts d) sql1 of
              Inl e \<Rightarrow> ([], [], Some e)
            | Inr sql2 \<Rightarrow> sqlizerBuffer_ToSql (caseElse nestedToSql d sql2)))"

text \<open>
  The builder. \<open>newPart\<close>, which wraps a value of type \<open>any\<close> into a \<open>Sqlizer\<close>, is not
  part of the sources at hand and is a parameter.
\<close>

definition emptyCase :: "'s caseData" where
  "emptyCase = \<lparr> What = None, WhenParts = [], Else = None, ElseValue = VNil, ElseNull = False \<rparr>"

definition newWhenPart :: "('s any \<Rightarrow> 's) \<Rightarrow> 's any \<Rightarrow> 's any \<Rightarrow> 's whenPart" where
  "newWhenPart newPart w t =
     (let wp = \<lparr> wWhen = newPart w, wThen = None, thenValue = VNil, nullThen = False \<rparr> in
      case t of
        ASqlizer s \<Rightarrow> wp\<lparr>wThen := Some (newPart t)\<rparr>
      | AValue v \<Rightarrow> if v = VNil then wp\<lparr>nullThen := True\<rparr> else wp\<lparr>thenValue := v\<rparr>)"

definition CaseBuilder_what :: "('s any \<Rightarrow> 's) \<Rightarrow> 's any \<Rightarrow> 's caseData \<Rightarrow> 's caseData" where
  "CaseBuilder_what newPart e b = b\<lparr>What := Some (newPart e)\<rparr>"

definition CaseBuilder_When :: "('s any \<Rightarrow> 's) \<Rightarrow> 's any \<Rightarrow> 's any \<Rightarrow> 's caseData \<Rightarrow> 's caseData" where
  "CaseBuilder_When newPart w t b = b\<lparr>WhenParts := WhenParts b @ [newWhenPart newPart w t]\<rparr>"

definition CaseBuilder_Else :: "('s any \<Rightarrow> 's) \<Rightarrow> 's any \<Rightarrow> 's caseData \<Rightarrow> 's caseData" where
  "CaseBuilder_Else newPart e b =
     (case e of
        ASqlizer s \<Rightarrow> b\<lparr>Else := Some (newPart e)\<rparr>
      | AValue v \<Rightarrow> if v = VNil then b\<lparr>ElseNull := True\<rparr> else b\<lparr>ElseValue := v\<rparr>)"












section \<open>LATERAL subqueries\<close>

text \<open>
  Modelled from the spec: \<open>SelectBuilder\<close> and \<open>CommonTableExpressionsBuilder\<close> are not
  part of the sources at hand. The type below has the values of type \<open>Sqlizer\<close> that
  \<open>forceQuestionPlaceholders\<close> tells apart by their dynamic type, and the union builder,
  which also carries a placeholder format. Of a statement builder the model keeps its
  placeholder format and what it renders in the neutral form. A union builder is here a
  union of fragments that are given by what they render. Any other fragment is given by
  what it renders.
\<close>

datatype sqlizer =
    SelectBuilder PlaceholderFormat sqlres
  | CommonTableExpressionsBuilder PlaceholderFormat sqlres
  | UnionBuilder "sqlres unionData"
  | OtherSqlizer sqlres

text \<open>
  Modelled from the spec: the method \<open>ToSql\<close> of the two statement builders is not part of
  the sources at hand. It applies the format of the builder to the neutral text, once;
  an error of the neutral render is returned as it is.
\<close>

fun statementToSql :: "PlaceholderFormat \<Rightarrow> sqlres \<Rightarrow> sqlres" where
  "statementToSql f (sqlStr, as, Some e) = (sqlStr, as, Some e)"
| "statementToSql f (sqlStr, as, None) =
     (case ReplacePlaceholders f sqlStr of (s, e) \<Rightarrow> (s, as, e))"

text \<open>
  The method \<open>ToSql\<close> of a value of type \<open>Sqlizer\<close>. That of the union builder is
  \<open>unionData.toSql\<close>, with the identity as the render of its fragments.
\<close>

fun sqlizer_ToSql :: "sqlizer \<Rightarrow> sqlres" where
  "sqlizer_ToSql (SelectBuilder f raw) = statementToSql f raw"
| "sqlizer_ToSql (CommonTableExpressionsBuilder f raw) = statementToSql f raw"
| "sqlizer_ToSql (UnionBuilder d) = unionData_toSql id (appendToSql id) d"
| "sqlizer_ToSql (OtherSqlizer r) = r"

text \<open>
  \<open>forceQuestionPlaceholders\<close>: the method \<open>PlaceholderFormat(Question)\<close> of a statement
  builder sets its format; every other value is returned as it is.
\<close>

fun forceQuestionPlaceholders :: "sqlizer \<Rightarrow> sqlizer" where
  "forceQuestionPlaceholders (SelectBuilder f raw) = SelectBuilder Question raw"
| "forceQuestionPlaceholders (CommonTableExpressionsBuilder f raw) =
     CommonTableExpressionsBuilder Question raw"
| "forceQuestionPlaceholders s = s"

text \<open>
  The two lateral parts. The fields \<open>sel\<close> and \<open>alias\<close> of \<open>fromSelectLateralPart\<close>
  are \<open>from_sel\<close> and \<open>from_alias\<close> here; the fields \<open>alias\<close> and \<open>on\<close> of
  \<open>joinLateralSelectPart\<close> are \<open>aliasName\<close> and \<open>onCond\<close>, \<open>None\<close> being the nil interface.
\<close>

record 's fromSelectLateralPart =
  from_sel :: 's
  from_alias :: string

record 's joinLateralSelectPart =
  joinType :: string
  sel :: 's
  aliasName :: string
  onCond :: "'s option"

definition fromSelectLateralPart_ToSql :: "('s \<Rightarrow> sqlres) \<Rightarrow> 's fromSelectLateralPart \<Rightarrow> sqlres" where
  "fromSelectLateralPart_ToSql toSql p =
     (case toSql (from_sel p) of
        (subSql, subArgs, Some e) \<Rightarrow> ([], [], Some e)
      | (subSql, subArgs, None) \<Rightarrow>
          (''LATERAL ('' @ subSql @ '') AS '' @ from_alias p, subArgs, None))"

definition joinLateralSelectPart_ToSql :: "('s \<Rightarrow> sqlres) \<Rightarrow> 's joinLateralSelectPart \<Rightarrow> sqlres" where
  "joinLateralSelectPart_ToSql toSql p =
     (case toSql (sel p) of
        (subSql, subArgs, Some e) \<Rightarrow> ([], [], Some e)
      | (subSql, subArgs, None) \<Rightarrow>
          (let buf = joinType p @ '' LATERAL ('' @ subSql @ '') AS '' @ aliasName p in
           case onCond p of
             None \<Rightarrow> (buf, subArgs, None)
           | Some c \<Rightarrow>
               (case toSql c of
                  (onSql, onArgs, Some e) \<Rightarrow> ([], [], Some e)
                | (onSql, onArgs, None) \<Rightarrow> (buf @ '' ON '' @ onSql, subArgs @ onArgs, None))))"

text \<open>
  Modelled from the spec: the builder state of the outer SELECT is not part of the
  sources at hand. The lateral operations set its field \<open>From\<close> and append to its list
  \<open>Joins\<close>; the record keeps these two fields.
\<close>

record selectData =
  From :: "sqlizer fromSelectLateralPart option"
  Joins :: "sqlizer joinLateralSelectPart list"

definition emptySelect :: selectData where
  "emptySelect = \<lparr> From = None, Joins = [] \<rparr>"




definition CrossJoinLateralSelect :: "sqlizer \<Rightarrow> string \<Rightarrow> selectData \<Rightarrow> selectData" where
  "CrossJoinLateralSelect s a b =
     b\<lparr>Joins := Joins b @
        [\<lparr>joinType = ''CROSS JOIN'', sel = forceQuestionPlaceholders s, aliasName = a, onCond = None\<rparr>]\<rparr>"

section \<open>Notions the properties speak of\<close>

text \<open>
  A token is a non-empty string with no white space in it. \<open>finishText\<close> is what the
  last two steps of \<open>unionData.toSql\<close> make of the assembled text: the placeholder
  rewrite if a format is set, then the compaction if it is enabled.
\<close>

definition token :: "string \<Rightarrow> bool" where
  "token w = (w \<noteq> [] \<and> (\<forall>c\<in>set w. \<not> isSpace c))"

definition finishText :: "'s unionData \<Rightarrow> string \<Rightarrow> string" where
  "finishText d s =
     (let s' = (case PlaceholderFormat d of None \<Rightarrow> s | Some f \<Rightarrow> fst (ReplacePlaceholders f s))
      in if CompactOutput d then compactSQL s' else s')"







text \<open>
  Inputs for the examples: the chain \<open>(SELECT 1) UNION (SELECT 2)\<close> of two statements
  with one bound value each.
\<close>

definition example_chain :: "sqlres unionData" where
  "example_chain = squirrel_Union [(''SELECT 1'', [VInt 7], None), (''SELECT 2'', [VInt 8], None)]"



text \<open>
  Inputs for the examples: a SELECT with one bound value that has the dollar format set,
  a union of one such statement with the dollar format set on the union, and a condition
  with one bound value.
\<close>

definition example_select :: sqlizer where
  "example_select = SelectBuilder Dollar (''SELECT c FROM t WHERE c > ?'', [VInt 1], None)"


definition example_on :: sqlizer where
  "example_on = OtherSqlizer (''subq.c < ?'', [VInt 2], None)"

section \<open>Rendering a union with no segment, or with one\<close>

text \<open>
  Claim C6. Rendering a union with zero segments, and so the builder \<open>Union()\<close>, fails
  with the error whose message is "squirrel: union requires at least one SELECT", with
  empty text and no arguments. A union built from exactly one statement that renders
  gives that statement in parentheses and nothing else: no combining keyword is written.
\<close>

theorem union_empty_and_single:
  "(Parts d = [] \<longrightarrow>
      unionData_toSql toSql ap d =
        ([], [], Some (ErrorString ''squirrel: union requires at least one SELECT'')))
   \<and> unionData_toSql toSql ap (squirrel_Union []) =
        ([], [], Some (ErrorString ''squirrel: union requires at least one SELECT''))
   \<and> (toSql x = (s, a, None) \<longrightarrow>
        unionData_toSql toSql ap (squirrel_Union [x]) = (''('' @ s @ '')'', a, None)
        \<and> unionData_toSql toSql ap (squirrel_UnionAll [x]) = (''('' @ s @ '')'', a, None))"
  by (simp add: unionData_toSql_def squirrel_Union_def squirrel_UnionAll_def emptyUnion_def
      unionSuffixes_def unionClauses_def unionFinish_def)

theorem union_empty_and_single_witness:
  "Parts (emptyUnion :: sqlres unionData) = []
   \<and> unionData_toSql id (appendToSql id) (emptyUnion :: sqlres unionData) =
        ([], [], Some (ErrorString ''squirrel: union requires at least one SELECT''))
   \<and> id (''SELECT 1'', [VInt 7], None) = (''SELECT 1'', [VInt 7], None)
   \<and> unionData_toSql id (appendToSql id) (squirrel_Union [(''SELECT 1'', [VInt 7], None)]) =
        (''(SELECT 1)'', [VInt 7], None)"
  using union_empty_and_single [of "emptyUnion :: sqlres unionData" id "appendToSql id"
      "(''SELECT 1'', [VInt 7], None)" "''SELECT 1''" "[VInt 7]"]
  by (simp add: emptyUnion_def)

section \<open>A union segment that fails to render\<close>

lemma unionBody_first_failure:
  "\<forall>q\<in>set pre. snd (snd (toSql (query q))) = None \<Longrightarrow>
   toSql (query p) = (s, a, Some e) \<Longrightarrow>
   unionBody toSql i (pre @ p # post) buf as =
     ([], [], Some (WrapError (''squirrel: union subquery '' @ decimal (i + length pre) @ '': '' @ Error e) e))"
proof (induction pre arbitrary: i buf as)
  case Nil
  then show ?case by simp
next
  case (Cons q pre)
  then obtain s' a' where q: "toSql (query q) = (s', a', None)"
    by (cases "toSql (query q)") auto
  from Cons.prems have "\<forall>q\<in>set pre. snd (snd (toSql (query q))) = None" by simp
  from Cons.IH [OF this Cons.prems(2)] q show ?case by simp
qed

text \<open>
  Claim C7. If some segment of a union fails to render, the render of the union returns
  empty text, no arguments, and the error of the first failing segment wrapped in a
  message that carries the index of that segment. The result depends neither on the
  segments after it nor on the clauses of the whole union: rendering has stopped there.
\<close>

theorem union_segment_failure:
  assumes "\<exists>p\<in>set (Parts d). snd (snd (toSql (query p))) \<noteq> None"
  shows "\<exists>i e. i < length (Parts d)
           \<and> snd (snd (toSql (query (Parts d ! i)))) = Some e
           \<and> (\<forall>j<i. snd (snd (toSql (query (Parts d ! j)))) = None)
           \<and> unionData_toSql toSql ap d =
               ([], [], Some (WrapError (''squirrel: union subquery '' @ decimal i @ '': '' @ Error e) e))"
proof -
  from assms obtain pre p post where
    sp: "Parts d = pre @ p # post" and
    pf: "snd (snd (toSql (query p))) \<noteq> None" and
    ok: "\<forall>q\<in>set pre. \<not> snd (snd (toSql (query q))) \<noteq> None"
    using split_list_first_prop [of "Parts d" "\<lambda>p. snd (snd (toSql (query p))) \<noteq> None"] by blast
  from pf obtain s a e where pe: "toSql (query p) = (s, a, Some e)"
    by (cases "toSql (query p)") auto
  from ok have ok': "\<forall>q\<in>set pre. snd (snd (toSql (query q))) = None" by simp
  have body: "unionBody toSql 0 (Parts d) [] [] =
     ([], [], Some (WrapError (''squirrel: union subquery '' @ decimal (length pre) @ '': '' @ Error e) e))"
    using unionBody_first_failure [OF ok' pe, of 0 post "[]" "[]"] sp by simp
  have "length pre < length (Parts d)" using sp by simp
  moreover have "snd (snd (toSql (query (Parts d ! length pre)))) = Some e"
    using sp pe by simp
  moreover have "\<forall>j<length pre. snd (snd (toSql (query (Parts d ! j)))) = None"
    using sp ok' by (simp add: nth_append)
  moreover have "unionData_toSql toSql ap d =
     ([], [], Some (WrapError (''squirrel: union subquery '' @ decimal (length pre) @ '': '' @ Error e) e))"
    using body sp by (simp add: unionData_toSql_def)
  ultimately show ?thesis by blast
qed

theorem union_segment_failure_witness:
  "(\<exists>p\<in>set (Parts (squirrel_Union
        [(''SELECT 1'', [VInt 7], None),
         (''x'', [VInt 1], Some (ErrorString ''boom'')),
         (''y'', [], Some (ErrorString ''later''))])).
      snd (snd (id (query p))) \<noteq> None)
   \<and> (\<exists>i e. i < length (Parts (squirrel_Union
        [(''SELECT 1'', [VInt 7], None),
         (''x'', [VInt 1], Some (ErrorString ''boom'')),
         (''y'', [], Some (ErrorString ''later''))]))
        \<and> snd (snd (id (query (Parts (squirrel_Union
        [(''SELECT 1'', [VInt 7], None),
         (''x'', [VInt 1], Some (ErrorString ''boom'')),
         (''y'', [], Some (ErrorString ''later''))]) ! i)))) = Some e
        \<and> (\<forall>j<i. snd (snd (id (query (Parts (squirrel_Union
        [(''SELECT 1'', [VInt 7], None),
         (''x'', [VInt 1], Some (ErrorString ''boom'')),
         (''y'', [], Some (ErrorString ''later''))]) ! j)))) = None)
        \<and> unionData_toSql id (appendToSql id) (squirrel_Union
        [(''SELECT 1'', [VInt 7], None),
         (''x'', [VInt 1], Some (ErrorString ''boom'')),
         (''y'', [], Some (ErrorString ''later''))]) =
            ([], [], Some (WrapError (''squirrel: union subquery '' @ decimal i @ '': '' @ Error e) e)))"
proof -
  have h: "\<exists>p\<in>set (Parts (squirrel_Union
        [(''SELECT 1'', [VInt 7], None),
         (''x'', [VInt 1], Some (ErrorString ''boom'')),
         (''y'', [], Some (ErrorString ''later''))])).
      snd (snd (id (query p))) \<noteq> None"
    by (simp add: squirrel_Union_def emptyUnion_def)
  from union_segment_failure [OF h, of "appendToSql id"] h show ?thesis by blast
qed

section \<open>Rendering a CASE that lacks a WHEN or a THEN\<close>

lemma caseWhenParts_missing_then:
  "\<exists>p\<in>set ps. wThen p = None \<and> thenValue p = VNil \<and> \<not> nullThen p \<Longrightarrow>
   caseWhenParts nts ps sql = Inl (ErrorString ''When clause must have Then part'')"
proof (induction ps arbitrary: sql)
  case Nil
  then show ?case by simp
next
  case (Cons p ps)
  show ?case
  proof (cases "wThen p = None \<and> thenValue p = VNil \<and> \<not> nullThen p")
    case True
    then show ?thesis by (simp add: Let_def)
  next
    case False
    with Cons.prems have "\<exists>q\<in>set ps. wThen q = None \<and> thenValue q = VNil \<and> \<not> nullThen q"
      by auto
    from Cons.IH [OF this] False show ?thesis by (simp add: Let_def)
  qed
qed

text \<open>
  Claim C5. The builder of a CASE returns a builder whatever it is given: \<open>what\<close> and
  \<open>Else\<close> leave the WHEN parts as they are and \<open>When\<close> adds one. What is wrong with a
  builder shows when it is rendered. A CASE with no WHEN part, and so the empty builder,
  renders to an error, and so does a CASE with a WHEN part that has none of the three
  forms of THEN (fragment, value, null marker). In both cases the text is empty and there
  are no arguments.
\<close>

theorem case_render_errors:
  "caseData_ToSql nts (emptyCase :: 's caseData) =
     ([], [], Some (ErrorString ''case expression must contain at lease one WHEN clause''))
   \<and> WhenParts (CaseBuilder_what np x d) = WhenParts d
   \<and> WhenParts (CaseBuilder_Else np x d) = WhenParts d
   \<and> WhenParts (CaseBuilder_When np x y d) = WhenParts d @ [newWhenPart np x y]
   \<and> (WhenParts d = [] \<longrightarrow>
        caseData_ToSql nts d =
          ([], [], Some (ErrorString ''case expression must contain at lease one WHEN clause'')))
   \<and> ((\<exists>p\<in>set (WhenParts d). wThen p = None \<and> thenValue p = VNil \<and> \<not> nullThen p) \<longrightarrow>
        caseData_ToSql nts d = ([], [], Some (ErrorString ''When clause must have Then part'')))"
proof (intro conjI impI)
  show "caseData_ToSql nts (emptyCase :: 's caseData) =
     ([], [], Some (ErrorString ''case expression must contain at lease one WHEN clause''))"
    by (simp add: caseData_ToSql_def emptyCase_def)
next
  show "WhenParts (CaseBuilder_what np x d) = WhenParts d"
    by (simp add: CaseBuilder_what_def)
next
  show "WhenParts (CaseBuilder_Else np x d) = WhenParts d"
    by (cases x) (simp_all add: CaseBuilder_Else_def)
next
  show "WhenParts (CaseBuilder_When np x y d) = WhenParts d @ [newWhenPart np x y]"
    by (simp add: CaseBuilder_When_def)
next
  assume "WhenParts d = []"
  then show "caseData_ToSql nts d =
          ([], [], Some (ErrorString ''case expression must contain at lease one WHEN clause''))"
    by (simp add: caseData_ToSql_def)
next
  assume a: "\<exists>p\<in>set (WhenParts d). wThen p = None \<and> thenValue p = VNil \<and> \<not> nullThen p"
  then have ne: "WhenParts d \<noteq> []" by auto
  from caseWhenParts_missing_then [OF a] ne
  show "caseData_ToSql nts d = ([], [], Some (ErrorString ''When clause must have Then part''))"
    by (simp add: caseData_ToSql_def Let_def)
qed

theorem case_render_errors_witness:
  "WhenParts (emptyCase :: sqlres caseData) = []
   \<and> caseData_ToSql id (emptyCase :: sqlres caseData) =
       ([], [], Some (ErrorString ''case expression must contain at lease one WHEN clause''))
   \<and> (\<exists>p\<in>set (WhenParts
          \<lparr> What = None,
            WhenParts =
              [\<lparr> wWhen = (''a = 1'', [], None), wThen = Some (''x'', [], None), thenValue = VNil, nullThen = False \<rparr>,
               \<lparr> wWhen = (''a = 2'', [], None), wThen = None, thenValue = VNil, nullThen = False \<rparr>],
            Else = None, ElseValue = VNil, ElseNull = False \<rparr>).
          wThen p = None \<and> thenValue p = VNil \<and> \<not> nullThen p)
   \<and> caseData_ToSql id
          \<lparr> What = None,
            WhenParts =
              [\<lparr> wWhen = (''a = 1'', [], None), wThen = Some (''x'', [], None), thenValue = VNil, nullThen = False \<rparr>,
               \<lparr> wWhen = (''a = 2'', [], None), wThen = None, thenValue = VNil, nullThen = False \<rparr>],
            Else = None, ElseValue = VNil, ElseNull = False \<rparr>
        = ([], [], Some (ErrorString ''When clause must have Then part''))"
  using case_render_errors [where nts = id and d = "emptyCase :: sqlres caseData"]
    case_render_errors [where nts = id and d =
          "\<lparr> What = None,
            WhenParts =
              [\<lparr> wWhen = (''a = 1'', [], None), wThen = Some (''x'', [], None), thenValue = VNil, nullThen = False \<rparr>,
               \<lparr> wWhen = (''a = 2'', [], None), wThen = None, thenValue = VNil, nullThen = False \<rparr>],
            Else = None, ElseValue = VNil, ElseNull = False \<rparr>"]
  by (simp add: emptyCase_def)

section \<open>The ELSE of a CASE\<close>












section \<open>Rendering a lateral join\<close>

text \<open>
  Claim C3. A lateral join part whose subquery renders gives its join keyword, then
  \<open>LATERAL (\<close>, the subquery, \<open>) AS\<close> and the alias. With no ON condition that is the
  whole text and the arguments are those of the subquery; with an ON condition that
  renders, \<open>ON\<close> and the condition follow, and the arguments of the condition follow those
  of the subquery. \<open>CrossJoinLateralSelect\<close> appends one part, with the keyword
  \<open>CROSS JOIN\<close> and no ON condition, which therefore renders with no ON clause.
\<close>

theorem join_lateral_render:
  "(toSql (sel p) = (subSql, subArgs, None) \<longrightarrow>
      (onCond p = None \<longrightarrow>
         joinLateralSelectPart_ToSql toSql p =
           (joinType p @ '' LATERAL ('' @ subSql @ '') AS '' @ aliasName p, subArgs, None))
    \<and> (onCond p = Some c \<and> toSql c = (onSql, onArgs, None) \<longrightarrow>
         joinLateralSelectPart_ToSql toSql p =
           (joinType p @ '' LATERAL ('' @ subSql @ '') AS '' @ aliasName p @ '' ON '' @ onSql,
            subArgs @ onArgs, None)))
   \<and> (\<exists>q. Joins (CrossJoinLateralSelect s a b) = Joins b @ [q]
          \<and> joinType q = ''CROSS JOIN'' \<and> onCond q = None
          \<and> (sqlizer_ToSql (sel q) = (crossSql, crossArgs, None) \<longrightarrow>
               joinLateralSelectPart_ToSql sqlizer_ToSql q =
                 (''CROSS JOIN LATERAL ('' @ crossSql @ '') AS '' @ a, crossArgs, None)))"
  by (simp add: joinLateralSelectPart_ToSql_def CrossJoinLateralSelect_def Let_def)

theorem join_lateral_render_witness:
  "sqlizer_ToSql (sel \<lparr>joinType = ''LEFT JOIN'', sel = forceQuestionPlaceholders example_select,
                       aliasName = ''subq'', onCond = Some example_on\<rparr>) =
     (''SELECT c FROM t WHERE c > ?'', [VInt 1], None)
   \<and> onCond \<lparr>joinType = ''LEFT JOIN'', sel = forceQuestionPlaceholders example_select,
              aliasName = ''subq'', onCond = Some example_on\<rparr> = Some example_on
   \<and> sqlizer_ToSql example_on = (''subq.c < ?'', [VInt 2], None)
   \<and> joinLateralSelectPart_ToSql sqlizer_ToSql
        \<lparr>joinType = ''LEFT JOIN'', sel = forceQuestionPlaceholders example_select,
         aliasName = ''subq'', onCond = Some example_on\<rparr> =
      (''LEFT JOIN LATERAL (SELECT c FROM t WHERE c > ?) AS subq ON subq.c < ?'',
       [VInt 1, VInt 2], None)
   \<and> onCond \<lparr>joinType = ''JOIN'', sel = forceQuestionPlaceholders example_select,
              aliasName = ''subq'', onCond = None\<rparr> = None
   \<and> joinLateralSelectPart_ToSql sqlizer_ToSql
        \<lparr>joinType = ''JOIN'', sel = forceQuestionPlaceholders example_select,
         aliasName = ''subq'', onCond = None\<rparr> =
      (''JOIN LATERAL (SELECT c FROM t WHERE c > ?) AS subq'', [VInt 1], None)
   \<and> (\<exists>q. Joins (CrossJoinLateralSelect example_select ''g'' emptySelect) = Joins emptySelect @ [q]
          \<and> joinType q = ''CROSS JOIN'' \<and> onCond q = None
          \<and> sqlizer_ToSql (sel q) = (''SELECT c FROM t WHERE c > ?'', [VInt 1], None)
          \<and> joinLateralSelectPart_ToSql sqlizer_ToSql q =
               (''CROSS JOIN LATERAL (SELECT c FROM t WHERE c > ?) AS g'', [VInt 1], None))"
  using
    join_lateral_render [of sqlizer_ToSql
      "\<lparr>joinType = ''LEFT JOIN'', sel = forceQuestionPlaceholders example_select,
        aliasName = ''subq'', onCond = Some example_on\<rparr>"
      "''SELECT c FROM t WHERE c > ?''" "[VInt 1]" example_on "''subq.c < ?''" "[VInt 2]"
      example_select "''g''" emptySelect "''SELECT c FROM t WHERE c > ?''" "[VInt 1]"]
    join_lateral_render [of sqlizer_ToSql
      "\<lparr>joinType = ''JOIN'', sel = forceQuestionPlaceholders example_select,
        aliasName = ''subq'', onCond = None\<rparr>"
      "''SELECT c FROM t WHERE c > ?''" "[VInt 1]" example_on "''subq.c < ?''" "[VInt 2]"
      example_select "''g''" emptySelect "''SELECT c FROM t WHERE c > ?''" "[VInt 1]"]
  by (simp add: example_select_def example_on_def emptySelect_def CrossJoinLateralSelect_def)

section \<open>Strings: fields, joins, digits and the placeholder rewrite\<close>

text \<open>Fields and Join.\<close>

lemma fields_nonspace_head: "\<not> isSpace c \<Longrightarrow> strings_Fields (c # cs) \<noteq> []"
  by (cases cs) (auto split: list.splits)

lemma fields_append_space:
  "isSpace c \<Longrightarrow> strings_Fields (xs @ c # ys) = strings_Fields xs @ strings_Fields ys"
proof (induction xs)
  case Nil
  then show ?case by simp
next
  case (Cons x xs)
  show ?case
  proof (cases "isSpace x")
    case True
    with Cons show ?thesis by simp
  next
    case False
    show ?thesis
    proof (cases xs)
      case Nil
      with False Cons.prems show ?thesis by simp
    next
      case (Cons d ds)
      show ?thesis
      proof (cases "isSpace d")
        case True
        with False Cons Cons.IH [OF Cons.prems] show ?thesis by simp
      next
        case nd: False
        from fields_nonspace_head [OF nd, of ds] obtain w ws
          where w: "strings_Fields (d # ds) = w # ws"
          by (cases "strings_Fields (d # ds)") auto
        with False nd Cons Cons.IH [OF Cons.prems] show ?thesis by simp
      qed
    qed
  qed
qed

lemma fields_token: "token w \<Longrightarrow> strings_Fields w = [w]"
proof (induction w)
  case Nil
  then show ?case by (simp add: token_def)
next
  case (Cons c w)
  show ?case
  proof (cases w)
    case Nil
    with Cons.prems show ?thesis by (simp add: token_def)
  next
    case (Cons d ds)
    with Cons.prems have "token w" by (simp add: token_def)
    with Cons.IH have "strings_Fields w = [w]" by simp
    with Cons Cons.prems show ?thesis by (simp add: token_def)
  qed
qed

lemma fields_token_space:
  "token w \<Longrightarrow> isSpace c \<Longrightarrow> strings_Fields (w @ c # ys) = w # strings_Fields ys"
  by (simp add: fields_append_space fields_token)


lemma isSpace_space: "isSpace CHR '' ''"
  by (simp add: isSpace_def)



lemma join_append:
  "xs \<noteq> [] \<Longrightarrow>
   strings_Join (xs @ ys) sep = strings_Join xs sep @ (if ys = [] then [] else sep @ strings_Join ys sep)"
proof (induction xs sep rule: strings_Join.induct)
  case (1 sep)
  then show ?case by simp
next
  case (2 x sep)
  then show ?case by (cases ys) simp_all
next
  case (3 x y zs sep)
  then show ?case by simp
qed

text \<open>The digits of a number are neither white space nor question marks.\<close>

lemma digit_char_table: "map digit_char [0, 1, 2, 3, 4, 5, 6, 7, 8, 9] = ''0123456789''"
  by code_simp

lemma digit_char_plain: "k < 10 \<Longrightarrow> \<not> isSpace (digit_char k) \<and> digit_char k \<noteq> CHR ''?''"
proof -
  assume "k < 10"
  then have "k \<in> {0, 1, 2, 3, 4, 5, 6, 7, 8, 9}" by auto
  with digit_char_table show ?thesis by (auto simp: isSpace_def)
qed

lemma decimal_plain: "decimal n \<noteq> [] \<and> (\<forall>c\<in>set (decimal n). \<not> isSpace c \<and> c \<noteq> CHR ''?'')"
proof (induction n rule: decimal.induct)
  case (1 n)
  show ?case
  proof (cases "n < 10")
    case True
    then show ?thesis using digit_char_plain [of n] by (simp add: decimal.simps [of n])
  next
    case False
    have "n mod 10 < 10" by simp
    from digit_char_plain [OF this] 1 [OF False] False show ?thesis
      by (auto simp: decimal.simps [of n])
  qed
qed

text \<open>The placeholder rewrite goes through a text from left to right.\<close>

lemma replace_append:
  "replacePositionalPlaceholders pre n (a @ b) =
     replacePositionalPlaceholders pre n a
       @ replacePositionalPlaceholders pre (n + length (filter (\<lambda>c. c = CHR ''?'') a)) b"
  by (induction a arbitrary: n) auto

lemma replace_plain:
  "CHR ''?'' \<notin> set a \<Longrightarrow> replacePositionalPlaceholders pre n a = a"
  by (induction a) auto

declare strings_Fields.simps(2) [simp del]

lemma fields_leading_space [simp]: "strings_Fields (CHR '' '' # w) = strings_Fields w"
  by (simp add: isSpace_space strings_Fields.simps(2))
lemma ReplacePlaceholders_no_error: "snd (ReplacePlaceholders f s) = None"
  by (cases f) simp_all

lemma unionFinish_eq: "unionFinish d s as = (finishText d s, as, None)"
proof (cases "PlaceholderFormat d")
  case None
  then show ?thesis by (simp add: unionFinish_def finishText_def)
next
  case (Some f)
  with ReplacePlaceholders_no_error [of f s] show ?thesis
    by (cases "ReplacePlaceholders f s") (simp add: unionFinish_def finishText_def)
qed

lemma unionBody_prefix:
  "unionBody toSql i ps buf as = (b', a', None) \<Longrightarrow> \<exists>r. b' = buf @ r"
proof (induction ps arbitrary: i buf as)
  case Nil
  then show ?case by simp
next
  case (Cons p ps)
  obtain s a e where r: "toSql (query p) = (s, a, e)" by (cases "toSql (query p)") auto
  show ?case
  proof (cases e)
    case None
    with Cons.prems r have
      "unionBody toSql (Suc i) ps
         ((if i > 0 then buf @ '' '' @ op p @ '' '' else buf) @ ''('' @ s @ '')'') (as @ a) = (b', a', None)"
      by simp
    from Cons.IH [OF this] show ?thesis by (auto split: if_splits)
  next
    case (Some x)
    with Cons.prems r show ?thesis by simp
  qed
qed

lemma unionBody_head:
  assumes "ps \<noteq> []" and "unionBody toSql 0 ps [] [] = (b, a, None)"
  shows "\<exists>r. b = CHR ''('' # r"
proof -
  from assms(1) obtain p ps' where ps: "ps = p # ps'" by (cases ps) auto
  obtain s a' e where r: "toSql (query p) = (s, a', e)" by (cases "toSql (query p)") auto
  show ?thesis
  proof (cases e)
    case None
    with assms(2) ps r have "unionBody toSql (Suc 0) ps' (''('' @ s @ '')'') a' = (b, a, None)"
      by simp
    from unionBody_prefix [OF this] show ?thesis by auto
  next
    case (Some x)
    with assms(2) ps r show ?thesis by simp
  qed
qed

lemma unionData_toSql_form:
  assumes "unionData_toSql toSql ap d = (text, as, None)"
  shows "\<exists>body sufx.
           (sufx = [] \<or> (\<exists>w. sufx = CHR '' '' # w))
         \<and> (\<forall>d'. Parts d' = Parts d \<and> Suffixes d' = Suffixes d \<longrightarrow>
               unionData_toSql toSql ap d' =
                 (finishText d' (CHR ''('' # body @ unionClauses d' @ sufx), as, None))"
proof -
  from assms have ne: "Parts d \<noteq> []"
    by (auto simp: unionData_toSql_def)
  obtain buf args e where b: "unionBody toSql 0 (Parts d) [] [] = (buf, args, e)"
    by (cases "unionBody toSql 0 (Parts d) [] []") auto
  from assms ne b have e: "e = None"
    by (cases e) (auto simp: unionData_toSql_def)
  from unionBody_head [OF ne b [unfolded e]] obtain body where body: "buf = CHR ''('' # body"
    by blast
  show ?thesis
  proof (cases "Suffixes d = []")
    case True
    from assms ne b e True have as: "as = args"
      by (simp add: unionData_toSql_def unionSuffixes_def unionFinish_eq)
    have "\<forall>d'. Parts d' = Parts d \<and> Suffixes d' = Suffixes d \<longrightarrow>
               unionData_toSql toSql ap d' =
                 (finishText d' (CHR ''('' # body @ unionClauses d' @ []), as, None)"
      using ne b e True body as
      by (simp add: unionData_toSql_def unionSuffixes_def unionFinish_eq)
    then show ?thesis by blast
  next
    case False
    obtain w args' e' where a: "ap (Suffixes d) '' '' args = (w, args', e')"
      by (cases "ap (Suffixes d) '' '' args") auto
    from assms ne b e False a have e': "e' = None"
      by (cases e') (auto simp: unionData_toSql_def unionSuffixes_def)
    from assms ne b e False a e' have as: "as = args'"
      by (simp add: unionData_toSql_def unionSuffixes_def unionFinish_eq)
    have "\<forall>d'. Parts d' = Parts d \<and> Suffixes d' = Suffixes d \<longrightarrow>
               unionData_toSql toSql ap d' =
                 (finishText d' (CHR ''('' # body @ unionClauses d' @ (CHR '' '' # w)), as, None)"
      using ne b e False a e' body as
      by (simp add: unionData_toSql_def unionSuffixes_def unionFinish_eq)
    then show ?thesis by blast
  qed
qed

text \<open>Inserting a clause of two words between a text and what follows it.\<close>

lemma compact_insert_clause:
  assumes "\<not> isSpace c" and "token kw" and "token ds" and "B = [] \<or> (\<exists>w. B = CHR '' '' # w)"
  shows "\<exists>X Y. compactSQL ((c # A) @ CHR '' '' # kw @ CHR '' '' # ds @ B) = X @ CHR '' '' # kw @ CHR '' '' # ds @ Y
             \<and> compactSQL ((c # A) @ B) = X @ Y"
proof -
  let ?fa = "strings_Fields (c # A)"
  let ?fb = "strings_Fields B"
  have fa: "?fa \<noteq> []" using fields_nonspace_head [OF assms(1)] by simp
  have dsB: "strings_Fields (ds @ B) = ds # ?fb"
    using assms(3,4) by (auto simp: fields_token fields_token_space isSpace_space)
  have kwB: "strings_Fields (kw @ CHR '' '' # ds @ B) = kw # ds # ?fb"
    using fields_token_space [OF assms(2) isSpace_space, of "ds @ B"] dsB by simp
  have l: "strings_Fields ((c # A) @ CHR '' '' # kw @ CHR '' '' # ds @ B) = ?fa @ kw # ds # ?fb"
    using fields_append_space [OF isSpace_space, of "c # A" "kw @ CHR '' '' # ds @ B"] kwB by simp
  have r: "strings_Fields ((c # A) @ B) = ?fa @ ?fb"
  proof (cases "B = []")
    case True
    then show ?thesis by simp
  next
    case False
    with assms(4) obtain w where w: "B = CHR '' '' # w" by blast
    have "strings_Fields B = strings_Fields w" by (simp add: w)
    with fields_append_space [OF isSpace_space, of "c # A" w] w show ?thesis
      by simp
  qed
  let ?X = "strings_Join ?fa '' ''"
  let ?Y = "if ?fb = [] then [] else '' '' @ strings_Join ?fb '' ''"
  have jl: "compactSQL ((c # A) @ CHR '' '' # kw @ CHR '' '' # ds @ B) = ?X @ CHR '' '' # kw @ CHR '' '' # ds @ ?Y"
  proof -
    have "strings_Join (?fa @ kw # ds # ?fb) '' '' = ?X @ '' '' @ strings_Join (kw # ds # ?fb) '' ''"
      using join_append [OF fa, of "kw # ds # ?fb" "'' ''"] by simp
    moreover have "strings_Join (kw # ds # ?fb) '' '' = kw @ '' '' @ ds @ ?Y"
      by (cases ?fb) simp_all
    ultimately show ?thesis unfolding compactSQL_def l by simp
  qed
  have jr: "compactSQL ((c # A) @ B) = ?X @ ?Y"
    unfolding compactSQL_def r using join_append [OF fa, of ?fb "'' ''"] by simp
  from jl jr show ?thesis by blast
qed

lemma replace_insert_clause:
  assumes "c \<noteq> CHR ''?''" and "CHR ''?'' \<notin> set K" and "B = [] \<or> (\<exists>w. B = CHR '' '' # w)"
  shows "\<exists>A' B'. (B' = [] \<or> (\<exists>w. B' = CHR '' '' # w))
           \<and> replacePositionalPlaceholders pre n ((c # A) @ K @ B) = (c # A') @ K @ B'
           \<and> replacePositionalPlaceholders pre n ((c # A) @ B) = (c # A') @ B'"
proof -
  let ?m = "n + length (filter (\<lambda>x. x = CHR ''?'') (c # A))"
  let ?A' = "replacePositionalPlaceholders pre n A"
  let ?B' = "replacePositionalPlaceholders pre ?m B"
  have a: "replacePositionalPlaceholders pre n (c # A) = c # ?A'" using assms(1) by simp
  have k: "length (filter (\<lambda>x. x = CHR ''?'') K) = 0" using assms(2)
    by (induction K) auto
  have 1: "replacePositionalPlaceholders pre n ((c # A) @ K @ B) = (c # ?A') @ K @ ?B'"
    using replace_append [of pre n "c # A" "K @ B"] replace_append [of pre ?m K B]
      replace_plain [OF assms(2), of pre ?m] a k by simp
  have 2: "replacePositionalPlaceholders pre n ((c # A) @ B) = (c # ?A') @ ?B'"
    using replace_append [of pre n "c # A" B] a by simp
  have 3: "?B' = [] \<or> (\<exists>w. ?B' = CHR '' '' # w)" using assms(3) by auto
  from 1 2 3 show ?thesis by blast
qed

lemma finish_insert_clause:
  assumes "\<not> isSpace c" and "c \<noteq> CHR ''?''" and "token kw" and "token ds"
    and "CHR ''?'' \<notin> set kw" and "CHR ''?'' \<notin> set ds"
    and "B = [] \<or> (\<exists>w. B = CHR '' '' # w)"
    and "PlaceholderFormat d' = PlaceholderFormat d" and "CompactOutput d' = CompactOutput d"
  shows "\<exists>X Y. finishText d ((c # A) @ CHR '' '' # kw @ CHR '' '' # ds @ B) = X @ CHR '' '' # kw @ CHR '' '' # ds @ Y
             \<and> finishText d' ((c # A) @ B) = X @ Y"
proof -
  let ?K = "CHR '' '' # kw @ CHR '' '' # ds"
  define S1 where "S1 = (c # A) @ CHR '' '' # kw @ CHR '' '' # ds @ B"
  define S2 where "S2 = (c # A) @ B"
  define pf where
    "pf = (\<lambda>s. case PlaceholderFormat d of None \<Rightarrow> s | Some f \<Rightarrow> fst (ReplacePlaceholders f s))"
  have S1: "S1 = (c # A) @ ?K @ B" by (simp add: S1_def)
  have ft: "\<And>s. finishText d s = (if CompactOutput d then compactSQL (pf s) else pf s)"
    by (simp add: finishText_def pf_def)
  have ft': "\<And>s. finishText d' s = (if CompactOutput d then compactSQL (pf s) else pf s)"
    using assms(8,9) by (simp add: finishText_def pf_def)
  have K: "CHR ''?'' \<notin> set ?K" using assms(5,6) by simp
  have "\<exists>A' B'. (B' = [] \<or> (\<exists>w. B' = CHR '' '' # w))
           \<and> pf S1 = (c # A') @ ?K @ B' \<and> pf S2 = (c # A') @ B'"
  proof (cases "PlaceholderFormat d")
    case None
    then have "pf S1 = (c # A) @ ?K @ B" "pf S2 = (c # A) @ B"
      by (simp_all add: pf_def S1 S2_def)
    with assms(7) show ?thesis by blast
  next
    case (Some f)
    show ?thesis
    proof (cases "f = Question")
      case True
      with Some have "pf S1 = (c # A) @ ?K @ B" "pf S2 = (c # A) @ B"
        by (simp_all add: pf_def S1 S2_def)
      with assms(7) show ?thesis by blast
    next
      case False
      then have rp: "\<And>s. fst (ReplacePlaceholders f s) =
                        replacePositionalPlaceholders (placeholderPrefix f) 1 s"
        by (cases f) simp_all
      from Some rp have "pf S1 = replacePositionalPlaceholders (placeholderPrefix f) 1 ((c # A) @ ?K @ B)"
        "pf S2 = replacePositionalPlaceholders (placeholderPrefix f) 1 ((c # A) @ B)"
        by (simp_all add: pf_def S1 S2_def)
      with replace_insert_clause [OF assms(2) K assms(7), of "placeholderPrefix f" 1 A]
      show ?thesis by metis
    qed
  qed
  then obtain A' B' where
    B': "B' = [] \<or> (\<exists>w. B' = CHR '' '' # w)" and
    l: "pf S1 = (c # A') @ ?K @ B'" and r: "pf S2 = (c # A') @ B'"
    by blast
  have l': "pf S1 = (c # A') @ CHR '' '' # kw @ CHR '' '' # ds @ B'" using l by simp
  show ?thesis
  proof (cases "CompactOutput d")
    case True
    from compact_insert_clause [OF assms(1,3,4) B', of A'] obtain X Y where
      "compactSQL ((c # A') @ CHR '' '' # kw @ CHR '' '' # ds @ B') = X @ CHR '' '' # kw @ CHR '' '' # ds @ Y"
      "compactSQL ((c # A') @ B') = X @ Y" by blast
    with True l' r have "finishText d S1 = X @ CHR '' '' # kw @ CHR '' '' # ds @ Y"
      "finishText d' S2 = X @ Y" by (simp_all add: ft ft')
    then show ?thesis unfolding S1_def S2_def by blast
  next
    case False
    with l' r have "finishText d S1 = (c # A') @ CHR '' '' # kw @ CHR '' '' # ds @ B'"
      "finishText d' S2 = (c # A') @ B'" by (simp_all add: ft ft')
    then show ?thesis unfolding S1_def S2_def by blast
  qed
qed

section \<open>LIMIT and OFFSET of a union\<close>

lemma token_LIMIT: "token ''LIMIT'' \<and> CHR ''?'' \<notin> set ''LIMIT''"
  by (simp add: token_def isSpace_def)

lemma token_OFFSET: "token ''OFFSET'' \<and> CHR ''?'' \<notin> set ''OFFSET''"
  by (simp add: token_def isSpace_def)

lemma token_decimal: "token (decimal n) \<and> CHR ''?'' \<notin> set (decimal n)"
  using decimal_plain [of n] by (auto simp: token_def)

lemma paren_plain: "\<not> isSpace CHR ''('' \<and> CHR ''('' \<noteq> CHR ''?''"
  by (simp add: isSpace_def)

lemma unionAppendAll_flags:
  "LimitSet (unionAppendAll opr i ps u) = LimitSet u
   \<and> OffsetSet (unionAppendAll opr i ps u) = OffsetSet u"
  by (induction ps arbitrary: i u) auto

lemma union_limit_render:
  assumes "unionData_toSql toSql ap (UnionBuilder_Limit n b) = (text, as, None)"
  shows "\<exists>X Y. text = X @ '' LIMIT '' @ decimal (unat n) @ Y
           \<and> (\<not> LimitSet b \<longrightarrow> unionData_toSql toSql ap b = (X @ Y, as, None))"
proof -
  let ?d = "UnionBuilder_Limit n b"
  define ob where "ob = (if length (OrderBy b) > 0 then '' ORDER BY '' @ strings_Join (OrderBy b) '', '' else [])"
  define off where "off = (if OffsetSet b then '' OFFSET '' @ decimal (unat (Offset b)) else [])"
  from unionData_toSql_form [OF assms] obtain body sufx where
    sufx: "sufx = [] \<or> (\<exists>w. sufx = CHR '' '' # w)" and
    form: "\<And>d'. Parts d' = Parts ?d \<Longrightarrow> Suffixes d' = Suffixes ?d \<Longrightarrow>
               unionData_toSql toSql ap d' =
                 (finishText d' (CHR ''('' # body @ unionClauses d' @ sufx), as, None)"
    by blast
  have cd: "unionClauses ?d = ob @ CHR '' '' # ''LIMIT'' @ CHR '' '' # decimal (unat n) @ off"
    by (simp add: unionClauses_def UnionBuilder_Limit_def ob_def off_def)
  have B: "off @ sufx = [] \<or> (\<exists>w. off @ sufx = CHR '' '' # w)"
    using sufx by (auto simp: off_def)
  from form [of ?d] assms have
    "text = finishText ?d (CHR ''('' # body @ unionClauses ?d @ sufx)" by simp
  then have t: "text = finishText ?d ((CHR ''('' # body @ ob) @ CHR '' '' # ''LIMIT'' @ CHR '' '' # decimal (unat n) @ (off @ sufx))"
    by (simp add: cd)
  from finish_insert_clause [of "CHR ''(''" "''LIMIT''" "decimal (unat n)" "off @ sufx" b ?d "body @ ob"]
    paren_plain token_LIMIT token_decimal [of "unat n"] B
  obtain X Y where
    x1: "finishText ?d ((CHR ''('' # body @ ob) @ CHR '' '' # ''LIMIT'' @ CHR '' '' # decimal (unat n) @ (off @ sufx))
           = X @ CHR '' '' # ''LIMIT'' @ CHR '' '' # decimal (unat n) @ Y" and
    x2: "finishText b ((CHR ''('' # body @ ob) @ (off @ sufx)) = X @ Y"
    by (auto simp: UnionBuilder_Limit_def)
  have 1: "text = X @ '' LIMIT '' @ decimal (unat n) @ Y" using t x1 by simp
  have 2: "\<not> LimitSet b \<longrightarrow> unionData_toSql toSql ap b = (X @ Y, as, None)"
  proof
    assume nl: "\<not> LimitSet b"
    then have cb: "unionClauses b = ob @ off" by (simp add: unionClauses_def ob_def off_def)
    from form [of b] have "unionData_toSql toSql ap b =
        (finishText b (CHR ''('' # body @ unionClauses b @ sufx), as, None)"
      by (simp add: UnionBuilder_Limit_def)
    with x2 show "unionData_toSql toSql ap b = (X @ Y, as, None)" by (simp add: cb)
  qed
  from 1 2 show ?thesis by blast
qed

lemma union_offset_render:
  assumes "unionData_toSql toSql ap (UnionBuilder_Offset n b) = (text, as, None)"
  shows "\<exists>X Y. text = X @ '' OFFSET '' @ decimal (unat n) @ Y
           \<and> (\<not> OffsetSet b \<longrightarrow> unionData_toSql toSql ap b = (X @ Y, as, None))"
proof -
  let ?d = "UnionBuilder_Offset n b"
  define ob where "ob = (if length (OrderBy b) > 0 then '' ORDER BY '' @ strings_Join (OrderBy b) '', '' else [])
                        @ (if LimitSet b then '' LIMIT '' @ decimal (unat (Limit b)) else [])"
  from unionData_toSql_form [OF assms] obtain body sufx where
    sufx: "sufx = [] \<or> (\<exists>w. sufx = CHR '' '' # w)" and
    form: "\<And>d'. Parts d' = Parts ?d \<Longrightarrow> Suffixes d' = Suffixes ?d \<Longrightarrow>
               unionData_toSql toSql ap d' =
                 (finishText d' (CHR ''('' # body @ unionClauses d' @ sufx), as, None)"
    by blast
  have cd: "unionClauses ?d = ob @ CHR '' '' # ''OFFSET'' @ CHR '' '' # decimal (unat n)"
    by (simp add: unionClauses_def UnionBuilder_Offset_def ob_def)
  from form [of ?d] assms have
    "text = finishText ?d (CHR ''('' # body @ unionClauses ?d @ sufx)" by simp
  then have t: "text = finishText ?d ((CHR ''('' # body @ ob) @ CHR '' '' # ''OFFSET'' @ CHR '' '' # decimal (unat n) @ sufx)"
    by (simp add: cd)
  from finish_insert_clause [of "CHR ''(''" "''OFFSET''" "decimal (unat n)" sufx b ?d "body @ ob"]
    paren_plain token_OFFSET token_decimal [of "unat n"] sufx
  obtain X Y where
    x1: "finishText ?d ((CHR ''('' # body @ ob) @ CHR '' '' # ''OFFSET'' @ CHR '' '' # decimal (unat n) @ sufx)
           = X @ CHR '' '' # ''OFFSET'' @ CHR '' '' # decimal (unat n) @ Y" and
    x2: "finishText b ((CHR ''('' # body @ ob) @ sufx) = X @ Y"
    by (auto simp: UnionBuilder_Offset_def)
  have 1: "text = X @ '' OFFSET '' @ decimal (unat n) @ Y" using t x1 by simp
  have 2: "\<not> OffsetSet b \<longrightarrow> unionData_toSql toSql ap b = (X @ Y, as, None)"
  proof
    assume nl: "\<not> OffsetSet b"
    then have cb: "unionClauses b = ob" by (simp add: unionClauses_def ob_def)
    from form [of b] have "unionData_toSql toSql ap b =
        (finishText b (CHR ''('' # body @ unionClauses b @ sufx), as, None)"
      by (simp add: UnionBuilder_Offset_def)
    with x2 show "unionData_toSql toSql ap b = (X @ Y, as, None)" by (simp add: cb)
  qed
  from 1 2 show ?thesis by blast
qed

text \<open>
  Claim C9. If the render of a union builder after \<open>Limit(n)\<close> succeeds, its text has
  the clause \<open>LIMIT n\<close> in it, for every \<open>n\<close>, zero too; and if the limit was not set on
  the builder before, the builder itself renders to the same text without that clause
  and the same arguments. The same holds for \<open>Offset(n)\<close> and \<open>OFFSET n\<close>. The flags
  \<open>LimitSet\<close> and \<open>OffsetSet\<close> are false in what the two constructors return and are left
  as they are by every other method, so a builder on which \<open>Limit\<close> (or \<open>Offset\<close>) was
  never called has the flag false.
\<close>

theorem union_limit_offset:
  "(unionData_toSql toSql ap (UnionBuilder_Limit n b) = (text, as, None) \<longrightarrow>
      (\<exists>X Y. text = X @ '' LIMIT '' @ decimal (unat n) @ Y
         \<and> (\<not> LimitSet b \<longrightarrow> unionData_toSql toSql ap b = (X @ Y, as, None))))
   \<and> (unionData_toSql toSql ap (UnionBuilder_Offset m b) = (text', as', None) \<longrightarrow>
      (\<exists>X Y. text' = X @ '' OFFSET '' @ decimal (unat m) @ Y
         \<and> (\<not> OffsetSet b \<longrightarrow> unionData_toSql toSql ap b = (X @ Y, as', None))))
   \<and> \<not> LimitSet (squirrel_Union ps) \<and> \<not> OffsetSet (squirrel_Union ps)
   \<and> \<not> LimitSet (squirrel_UnionAll ps) \<and> \<not> OffsetSet (squirrel_UnionAll ps)
   \<and> LimitSet (UnionBuilder_Offset m b) = LimitSet b
   \<and> OffsetSet (UnionBuilder_Limit n b) = OffsetSet b
   \<and> (\<forall>b' \<in> {UnionBuilder_Union q b, UnionBuilder_UnionAll q b, UnionBuilder_OrderBy es b,
               UnionBuilder_Suffix sf b, UnionBuilder_PlaceholderFormat f b, UnionBuilder_Compact b}.
        LimitSet b' = LimitSet b \<and> OffsetSet b' = OffsetSet b)"
  using union_limit_render [of toSql ap n b "text" "as"]
    union_offset_render [of toSql ap m b "text'" "as'"]
    unionAppendAll_flags [of unionDistinct 0 ps emptyUnion]
    unionAppendAll_flags [of unionAll 0 ps emptyUnion]
  by (simp add: squirrel_Union_def squirrel_UnionAll_def emptyUnion_def
      UnionBuilder_Limit_def UnionBuilder_Offset_def UnionBuilder_Union_def UnionBuilder_UnionAll_def
      UnionBuilder_OrderBy_def UnionBuilder_Suffix_def UnionBuilder_PlaceholderFormat_def
      UnionBuilder_Compact_def)

theorem union_limit_offset_witness:
  "unionData_toSql id (appendToSql id) (UnionBuilder_Limit 0 example_chain) =
     (''(SELECT 1) UNION (SELECT 2) LIMIT 0'', [VInt 7, VInt 8], None)
   \<and> unionData_toSql id (appendToSql id) (UnionBuilder_Offset 2 example_chain) =
     (''(SELECT 1) UNION (SELECT 2) OFFSET 2'', [VInt 7, VInt 8], None)
   \<and> \<not> LimitSet example_chain \<and> \<not> OffsetSet example_chain
   \<and> (\<exists>X Y. ''(SELECT 1) UNION (SELECT 2) LIMIT 0'' = X @ '' LIMIT '' @ decimal (unat (0 :: 64 word)) @ Y
         \<and> unionData_toSql id (appendToSql id) example_chain = (X @ Y, [VInt 7, VInt 8], None))
   \<and> (\<exists>X Y. ''(SELECT 1) UNION (SELECT 2) OFFSET 2'' = X @ '' OFFSET '' @ decimal (unat (2 :: 64 word)) @ Y
         \<and> unionData_toSql id (appendToSql id) example_chain = (X @ Y, [VInt 7, VInt 8], None))"
proof -
  have h1: "unionData_toSql id (appendToSql id) (UnionBuilder_Limit 0 example_chain) =
     (''(SELECT 1) UNION (SELECT 2) LIMIT 0'', [VInt 7, VInt 8], None)"
    by code_simp
  have h2: "unionData_toSql id (appendToSql id) (UnionBuilder_Offset 2 example_chain) =
     (''(SELECT 1) UNION (SELECT 2) OFFSET 2'', [VInt 7, VInt 8], None)"
    by code_simp
  have f: "\<not> LimitSet example_chain \<and> \<not> OffsetSet example_chain"
    by (simp add: example_chain_def squirrel_Union_def emptyUnion_def)
  from union_limit_offset [of id "appendToSql id" 0 example_chain
      "''(SELECT 1) UNION (SELECT 2) LIMIT 0''" "[VInt 7, VInt 8]" 2
      "''(SELECT 1) UNION (SELECT 2) OFFSET 2''" "[VInt 7, VInt 8]"] h1 h2 f
  show ?thesis by blast
qed

section \<open>The text and the arguments of a chain\<close>






section \<open>Compaction of the rendered union\<close>











section \<open>Forcing the question-mark form on a lateral subquery\<close>





section \<open>The tests of the union builder, on the model\<close>

text \<open>
  The tests of the repository for the union builder, with each SELECT given by what it
  renders in the neutral form: \<open>TestUnion_DistinctBasic\<close>, \<open>TestUnion_AllThreeParts\<close>,
  \<open>TestUnion_AppendChainMix\<close>, \<open>TestUnion_CompactCollapsesWhitespace\<close> and
  \<open>TestUnion_EmptyError\<close>.
\<close>

lemma test_union_distinct_basic:
  "unionData_toSql id (appendToSql id)
     (UnionBuilder_PlaceholderFormat Dollar (UnionBuilder_Offset 2 (UnionBuilder_Limit 100
       (UnionBuilder_OrderBy [''id'']
         (squirrel_Union [(''SELECT id FROM a WHERE x > ?'', [VInt 10], None),
                          (''SELECT id FROM b WHERE y < ?'', [VInt 5], None)]))))) =
   (''(SELECT id FROM a WHERE x > $1) UNION (SELECT id FROM b WHERE y < $2) ORDER BY id LIMIT 100 OFFSET 2'',
    [VInt 10, VInt 5], None)"
  by code_simp

lemma test_union_all_three_parts:
  "unionData_toSql id (appendToSql id)
     (UnionBuilder_PlaceholderFormat Dollar
       (squirrel_UnionAll [(''SELECT name FROM t1 WHERE a = ?'', [VInt 1], None),
                           (''SELECT name FROM t2 WHERE b = ?'', [VInt 2], None),
                           (''SELECT name FROM t3 WHERE c = ?'', [VInt 3], None)])) =
   (''(SELECT name FROM t1 WHERE a = $1) UNION ALL (SELECT name FROM t2 WHERE b = $2) UNION ALL (SELECT name FROM t3 WHERE c = $3)'',
    [VInt 1, VInt 2, VInt 3], None)"
  by code_simp

lemma test_union_append_chain_mix:
  "unionData_toSql id (appendToSql id)
     (UnionBuilder_PlaceholderFormat Dollar
       (UnionBuilder_Union (''SELECT id FROM c WHERE z = ?'', [VStr ''C''], None)
         (UnionBuilder_UnionAll (''SELECT id FROM b WHERE y = ?'', [VStr ''B''], None)
           (squirrel_Union [(''SELECT id FROM a WHERE x = ?'', [VStr ''A''], None)])))) =
   (''(SELECT id FROM a WHERE x = $1) UNION ALL (SELECT id FROM b WHERE y = $2) UNION (SELECT id FROM c WHERE z = $3)'',
    [VStr ''A'', VStr ''B'', VStr ''C''], None)"
  by code_simp

lemma test_union_compact_collapses_whitespace:
  "unionData_toSql id (appendToSql id)
     (UnionBuilder_PlaceholderFormat Dollar (UnionBuilder_Compact
       (UnionBuilder_Suffix [(''/* line1 */\<newline>/* line2 */'', [], None)]
         (squirrel_Union [(''SELECT id FROM a'', [], None), (''SELECT id FROM b'', [], None)])))) =
   (''(SELECT id FROM a) UNION (SELECT id FROM b) /* line1 */ /* line2 */'', [], None)"
  by code_simp

lemma test_union_empty_error:
  "snd (snd (unionData_toSql id (appendToSql id) (squirrel_Union ([] :: sqlres list)))) \<noteq> None"
  by code_simp

end
